theory Spec2Isabelle
  imports Main "HOL-Library.Word"
begin

section \<open>The audioplayer package: data model\<close>

text \<open>
  The package drives an FFmpeg child process and an Oto output through one struct,
  \<open>AudioPlayer\<close>. Its methods are embedded as functions on the struct paired with a
  \<open>world\<close>: the package-level variable \<open>ffmpegPath\<close>, an allocator of fresh handles
  (for processes, cancel functions, players and Oto contexts) and the chronological log of
  the external calls the methods make. Pointer fields are \<open>handle option\<close>, \<open>None\<close>
  being \<open>nil\<close>.

  Each method body runs between \<open>ap.mu.Lock()\<close> and the matching unlock, so it is one
  atomic step here; the mutex itself is not a field of the model. \<open>ap.wg.Wait()\<close>
  returns only when the counter is zero, which the copy goroutine brings about with
  \<open>ap.wg.Done()\<close>; the model takes it that the goroutine's pending read returns, so the
  wait ends with the counter at zero. The goroutine's own trailing \<open>ap.Stop()\<close> is one
  more \<open>Stop\<close> step.
\<close>

type_synonym handle = nat

text \<open>A \<open>float64\<close> is its 64 IEEE-754 bits; the package only stores and formats it.\<close>

type_synonym float64 = "64 word"

text \<open>\<open>strconv.FormatFloat(f, fmt, prec, bitSize)\<close> of the Go library, a parameter.\<close>

type_synonym formatter = "float64 \<Rightarrow> char \<Rightarrow> int \<Rightarrow> nat \<Rightarrow> string"

text \<open>
  Of \<open>exec.Cmd\<close> the model keeps \<open>Args\<close>: the name given to \<open>exec.Command\<close> followed by
  the arguments. The library finds the executable from \<open>Args[0]\<close>.
\<close>

record Cmd =
  Args :: "string list"

datatype event =
    EvCancel handle                \<comment> \<open>\<open>ap.cancelPlayback()\<close>\<close>
  | EvWgWait                       \<comment> \<open>\<open>ap.wg.Wait()\<close> returned\<close>
  | EvCmdStart handle Cmd          \<comment> \<open>\<open>ffmpegCmd.Start()\<close> launched a process\<close>
  | EvKill handle                  \<comment> \<open>\<open>ffmpegCmd.Process.Kill()\<close>\<close>
  | EvCmdWait handle               \<comment> \<open>\<open>ffmpegCmd.Wait()\<close>\<close>
  | EvNewContext handle            \<comment> \<open>\<open>oto.NewContext(44100, 2, 2, 4096)\<close> succeeded\<close>
  | EvContextClose handle          \<comment> \<open>\<open>ap.context.Close()\<close>\<close>
  | EvNewPlayer handle handle      \<comment> \<open>\<open>ap.context.NewPlayer()\<close>: player, context\<close>
  | EvPlayerClose handle           \<comment> \<open>\<open>ap.player.Close()\<close>\<close>
  | EvGo handle handle             \<comment> \<open>copy goroutine spawned: player, cancel token\<close>

record world =
  ffmpegPath :: string
  next_handle :: handle
  trace :: "event list"

record AudioPlayer =
  wg :: nat
  cancelPlayback :: "handle option"
  ffmpegCmd :: "handle option"
  player :: "handle option"
  otoContext :: "handle option"
  audioFile :: string
  speed :: float64
  startTime :: int

type_synonym state = "AudioPlayer \<times> world"

text \<open>What the operating system and the audio driver answer during one \<open>Start\<close>.\<close>

record start_env =
  pipe_err :: "string option"      \<comment> \<open>error of \<open>ffmpegCmd.StdoutPipe()\<close>\<close>
  cmd_err :: "string option"       \<comment> \<open>error of \<open>ffmpegCmd.Start()\<close>\<close>
  ctx_err :: "string option"       \<comment> \<open>error of \<open>oto.NewContext\<close>\<close>

datatype start_error =
    PipeError string               \<comment> \<open>"create FFmpeg stdout pipe: ..."\<close>
  | CmdStartError string           \<comment> \<open>"start FFmpeg cmd: ..."\<close>
  | OtoContextError string         \<comment> \<open>"create oto context: ..."\<close>

definition init_world :: world where
  "init_world = \<lparr>ffmpegPath = ''ffmpeg'', next_handle = 0, trace = []\<rparr>"

definition SetFFmpegPath :: "string \<Rightarrow> world \<Rightarrow> world" where
  "SetFFmpegPath path w = w\<lparr>ffmpegPath := path\<rparr>"

definition emit :: "event \<Rightarrow> world \<Rightarrow> world" where
  "emit ev w = w\<lparr>trace := trace w @ [ev]\<rparr>"

definition fresh :: "world \<Rightarrow> handle \<times> world" where
  "fresh w = (next_handle w, w\<lparr>next_handle := Suc (next_handle w)\<rparr>)"

definition NewAudioPlayer :: "string \<Rightarrow> float64 \<Rightarrow> int \<Rightarrow> AudioPlayer" where
  "NewAudioPlayer file spd start =
     \<lparr>wg = 0, cancelPlayback = None, ffmpegCmd = None, player = None, otoContext = None,
      audioFile = file, speed = spd, startTime = start\<rparr>"

section \<open>Decimal formatting of the start offset\<close>

text \<open>\<open>strconv.Itoa\<close>: base 10, a leading minus sign for a negative number.\<close>

definition digitChar :: "nat \<Rightarrow> char" where
  "digitChar d = ''0123456789'' ! d"

fun natToDec :: "nat \<Rightarrow> string" where
  "natToDec n = (if n < 10 then [digitChar n] else natToDec (n div 10) @ [digitChar (n mod 10)])"

declare natToDec.simps [simp del]

definition Itoa :: "int \<Rightarrow> string" where
  "Itoa i = (if i < 0 then CHR ''-'' # natToDec (nat (- i)) else natToDec (nat i))"




section \<open>Stop and Close\<close>

definition cancelStep :: "state \<Rightarrow> state" where
  "cancelStep s = (case cancelPlayback (fst s) of
                     Some c \<Rightarrow> (fst s, emit (EvCancel c) (snd s))
                   | None \<Rightarrow> s)"

definition waitStep :: "state \<Rightarrow> state" where
  "waitStep s = ((fst s)\<lparr>wg := 0\<rparr>, emit EvWgWait (snd s))"

definition reapStep :: "state \<Rightarrow> state" where
  "reapStep s = (case ffmpegCmd (fst s) of
                   Some p \<Rightarrow> ((fst s)\<lparr>ffmpegCmd := None\<rparr>, emit (EvCmdWait p) (emit (EvKill p) (snd s)))
                 | None \<Rightarrow> s)"

definition playerCloseStep :: "state \<Rightarrow> state" where
  "playerCloseStep s = (case player (fst s) of
                          Some pl \<Rightarrow> ((fst s)\<lparr>player := None\<rparr>, emit (EvPlayerClose pl) (snd s))
                        | None \<Rightarrow> s)"

definition Stop :: "state \<Rightarrow> state" where
  "Stop s = playerCloseStep (reapStep (waitStep (cancelStep s)))"

definition contextCloseStep :: "state \<Rightarrow> state" where
  "contextCloseStep s = (case otoContext (fst s) of
                           Some c \<Rightarrow> ((fst s)\<lparr>otoContext := None\<rparr>, emit (EvContextClose c) (snd s))
                         | None \<Rightarrow> s)"

definition Close :: "state \<Rightarrow> state" where
  "Close s = contextCloseStep (Stop s)"

section \<open>Start\<close>

definition ffmpegCommand :: "formatter \<Rightarrow> string \<Rightarrow> AudioPlayer \<Rightarrow> Cmd" where
  "ffmpegCommand FormatFloat path ap =
     \<lparr>Args = [path,
              ''-ss'', Itoa (startTime ap),
              ''-i'', audioFile ap,
              ''-filter:a'', ''atempo='' @ FormatFloat (speed ap) CHR ''f'' (- 1) 64,
              ''-f'', ''s16le'',
              ''-ar'', ''44100'',
              ''-ac'', ''2'',
              ''pipe:1'']\<rparr>"

text \<open>
  Lines 83 to 91: the Oto context is created only when the field is nil. The result carries
  the context that \<open>ap.context\<close> holds afterwards.
\<close>

definition ensureContext :: "start_env \<Rightarrow> state \<Rightarrow> start_error + (handle \<times> state)" where
  "ensureContext env s =
     (case otoContext (fst s) of
        Some c \<Rightarrow> Inr (c, s)
      | None \<Rightarrow>
          (case ctx_err env of
             Some e \<Rightarrow> Inl (OtoContextError e)
           | None \<Rightarrow>
               (let (c, w) = fresh (snd s)
                in Inr (c, (fst s)\<lparr>otoContext := Some c\<rparr>, emit (EvNewContext c) w))))"

text \<open>
  Lines 93 to 104: the player of the context \<open>c\<close> that \<open>ap.context\<close> holds, the copy
  goroutine and the process handle.
\<close>

definition launchCopy :: "handle \<Rightarrow> handle \<Rightarrow> handle \<Rightarrow> state \<Rightarrow> state" where
  "launchCopy tok p c s =
     (let (pl, w) = fresh (snd s);
          w1 = emit (EvNewPlayer pl c) w;
          w2 = emit (EvGo pl tok) w1
      in ((fst s)\<lparr>wg := Suc (wg (fst s)), player := Some pl, ffmpegCmd := Some p\<rparr>, w2))"

text \<open>Lines 57 to 104, entered with no session or after the \<open>Close\<close> of line 53.\<close>

definition startBody :: "formatter \<Rightarrow> start_env \<Rightarrow> state \<Rightarrow> start_error option \<times> state" where
  "startBody FormatFloat env s =
     (let cmd = ffmpegCommand FormatFloat (ffmpegPath (snd s)) (fst s)
      in case pipe_err env of
           Some e \<Rightarrow> (Some (PipeError e), s)
         | None \<Rightarrow>
             (let (tok, w1) = fresh (snd s);
                  s1 = ((fst s)\<lparr>cancelPlayback := Some tok\<rparr>, w1)
              in case cmd_err env of
                   Some e \<Rightarrow> (Some (CmdStartError e), s1)
                 | None \<Rightarrow>
                     (let (p, w2) = fresh (snd s1);
                          s2 = (fst s1, emit (EvCmdStart p cmd) w2)
                      in case ensureContext env s2 of
                           Inl err \<Rightarrow> (Some err, s2)
                         | Inr (c, s3) \<Rightarrow> (None, launchCopy tok p c s3))))"

definition Start :: "formatter \<Rightarrow> start_env \<Rightarrow> state \<Rightarrow> start_error option \<times> state" where
  "Start FormatFloat env s =
     startBody FormatFloat env (if ffmpegCmd (fst s) \<noteq> None then Close s else s)"

section \<open>The context-aware reader\<close>

text \<open>
  \<open>ctx.Err()\<close> is nil until the context's cancel function has been called, and
  \<open>context.Canceled\<close> from then on. A cancel function's calls are the \<open>EvCancel\<close> events
  of its token.
\<close>

datatype go_error = Canceled | EOF | OtherError string

definition ctxErr :: "world \<Rightarrow> handle \<Rightarrow> go_error option" where
  "ctxErr w tok = (if EvCancel tok \<in> set (trace w) then Some Canceled else None)"

text \<open>
  An \<open>io.Reader\<close> is a stream state with its \<open>Read\<close> method: from the state and the buffer
  to the count, the error, the buffer as filled and the stream's next state.
\<close>

type_synonym byte = "8 word"

type_synonym 'r reader = "'r \<Rightarrow> byte list \<Rightarrow> (int \<times> go_error option) \<times> byte list \<times> 'r"

record 'r readerCtx =
  ctx :: handle
  r :: 'r

definition NewReader :: "handle \<Rightarrow> 'r \<Rightarrow> 'r readerCtx" where
  "NewReader tok rdr = \<lparr>ctx = tok, r = rdr\<rparr>"

definition Read :: "'r reader \<Rightarrow> world \<Rightarrow> 'r readerCtx \<Rightarrow> byte list
                    \<Rightarrow> (int \<times> go_error option) \<times> byte list \<times> 'r readerCtx" where
  "Read rd w rc p =
     (case ctxErr w (ctx rc) of
        Some err \<Rightarrow> ((0, Some err), p, rc)
      | None \<Rightarrow> (let (res, p', r') = rd (r rc) p in (res, p', rc\<lparr>r := r'\<rparr>)))"

section \<open>Sequences of calls\<close>

datatype call = CallStart start_env | CallStop | CallClose | CallSetPath string

fun step :: "formatter \<Rightarrow> call \<Rightarrow> state \<Rightarrow> state" where
  "step FormatFloat (CallStart env) s = snd (Start FormatFloat env s)"
| "step FormatFloat CallStop s = Stop s"
| "step FormatFloat CallClose s = Close s"
| "step FormatFloat (CallSetPath path) s = (fst s, SetFFmpegPath path (snd s))"

definition run :: "formatter \<Rightarrow> call list \<Rightarrow> state \<Rightarrow> state" where
  "run FormatFloat calls s = foldl (\<lambda>st c. step FormatFloat c st) s calls"

text \<open>
  The states a program can bring a controller to through the package's functions. The
  program's other controllers share the world: their calls take handles from the allocator
  and add to the log.
\<close>

inductive reachable :: "formatter \<Rightarrow> state \<Rightarrow> bool" for FormatFloat :: formatter where
  reach_new: "reachable FormatFloat (NewAudioPlayer file spd start, init_world)"
| reach_step: "reachable FormatFloat s \<Longrightarrow> reachable FormatFloat (step FormatFloat c s)"
| reach_other: "reachable FormatFloat s \<Longrightarrow>
     reachable FormatFloat
       (fst s, (snd s)\<lparr>next_handle := next_handle (snd s) + k, trace := trace (snd s) @ evs\<rparr>)"

text \<open>A test program's fake reader: it counts its calls and hands out a fixed byte.\<close>

definition countingReader :: "nat reader" where
  "countingReader n p = ((int (length p), None), replicate (length p) 7, Suc n)"

text \<open>Observations on the log.\<close>

definition contextsCreated :: "world \<Rightarrow> nat" where
  "contextsCreated w = length (filter (\<lambda>ev. case ev of EvNewContext c \<Rightarrow> True | _ \<Rightarrow> False) (trace w))"

definition emitted :: "world \<Rightarrow> world \<Rightarrow> event list" where
  "emitted w w' = drop (length (trace w)) (trace w')"

definition allSucceed :: "start_env \<Rightarrow> bool" where
  "allSucceed env = (pipe_err env = None \<and> cmd_err env = None \<and> ctx_err env = None)"

definition okEnv :: start_env where
  "okEnv = \<lparr>pipe_err = None, cmd_err = None, ctx_err = None\<rparr>"

text \<open>The calls one \<open>Stop\<close> makes, read off lines 114 to 130.\<close>

definition stopEvents :: "AudioPlayer \<Rightarrow> event list" where
  "stopEvents ap =
     (case cancelPlayback ap of Some c \<Rightarrow> [EvCancel c] | None \<Rightarrow> []) @ [EvWgWait] @
     (case ffmpegCmd ap of Some p \<Rightarrow> [EvKill p, EvCmdWait p] | None \<Rightarrow> []) @
     (case player ap of Some pl \<Rightarrow> [EvPlayerClose pl] | None \<Rightarrow> [])"

text \<open>
  What holds of every controller between calls: the player and the wait-group counter are
  set only together with the process handle, and the context handle is one the allocator
  has already given out.
\<close>

definition consistent :: "state \<Rightarrow> bool" where
  "consistent s \<longleftrightarrow>
     (ffmpegCmd (fst s) = None \<longrightarrow> player (fst s) = None \<and> wg (fst s) = 0) \<and>
     (\<forall>c. otoContext (fst s) = Some c \<longrightarrow> c < next_handle (snd s))"

text \<open>
  Fixtures for the worked examples: a stand-in for \<open>strconv.FormatFloat\<close> on the bit
  patterns of 1.0, 1.5 and 3.0, and a controller for \<open>track.mp3\<close> at speed 1.5 from
  second 30.
\<close>

definition fmtStub :: formatter where
  "fmtStub f c prec bits =
     (if f = 0x3FF0000000000000 then ''1''
      else if f = 0x3FF8000000000000 then ''1.5''
      else if f = 0x4008000000000000 then ''3''
      else ''0.25'')"

definition demoPlayer :: AudioPlayer where
  "demoPlayer = NewAudioPlayer ''track.mp3'' 0x3FF8000000000000 30"

text \<open>
  A process that was launched and not reaped, and whose handle the controller does not hold.
\<close>

definition unowned :: "handle \<Rightarrow> state \<Rightarrow> bool" where
  "unowned p s \<longleftrightarrow>
     ffmpegCmd (fst s) \<noteq> Some p \<and> p < next_handle (snd s) \<and>
     EvKill p \<notin> set (trace (snd s)) \<and> EvCmdWait p \<notin> set (trace (snd s))"

definition isLaunch :: "event \<Rightarrow> bool" where
  "isLaunch ev = (case ev of EvCmdStart p cmd \<Rightarrow> True | _ \<Rightarrow> False)"

text \<open>
  The range the struct's comment gives for \<open>speed\<close>, "must be between 0.5 and 2.0". The
  bit patterns of 0.5 and 2.0 are \<open>3FE0000000000000\<close> and \<open>4000000000000000\<close>; between
  them the sign bit is clear, where the order of the patterns is the order of the numbers,
  and every negative number, zero, infinity and NaN has a pattern outside.
\<close>

definition speedInRange :: "float64 \<Rightarrow> bool" where
  "speedInRange f = (0x3FE0000000000000 \<le> f \<and> f \<le> 0x4000000000000000)"

text \<open>\<open>Start\<close> and \<open>Stop\<close> in strict alternation, one \<open>Start\<close> answer per cycle.\<close>

definition cycles :: "start_env list \<Rightarrow> call list" where
  "cycles envs = concat (map (\<lambda>e. [CallStart e, CallStop]) envs)"

text \<open>Between cycles: no session, context \<open>c\<close> in place, \<open>k\<close> contexts created so far.\<close>

definition settled :: "handle \<Rightarrow> nat \<Rightarrow> state \<Rightarrow> bool" where
  "settled c k t \<longleftrightarrow>
     ffmpegCmd (fst t) = None \<and> otoContext (fst t) = Some c \<and> contextsCreated (snd t) = k"

text \<open>Answers of the system for the failing starts of the examples.\<close>

definition noFFmpeg :: start_env where
  "noFFmpeg = \<lparr>pipe_err = None, cmd_err = Some ''executable file not found'', ctx_err = None\<rparr>"

definition noDevice :: start_env where
  "noDevice = \<lparr>pipe_err = None, cmd_err = None, ctx_err = Some ''device busy''\<rparr>"

section \<open>Basic facts about the three methods\<close>

lemmas stop_defs = Stop_def cancelStep_def waitStep_def reapStep_def playerCloseStep_def
lemmas close_defs = Close_def contextCloseStep_def
lemmas start_defs = Start_def startBody_def ensureContext_def launchCopy_def fresh_def
lemmas eval_defs = stop_defs close_defs start_defs emit_def emitted_def
  NewAudioPlayer_def demoPlayer_def init_world_def okEnv_def SetFFmpegPath_def run_def

lemma Stop_fst: "fst (Stop s) = (fst s)\<lparr>wg := 0, ffmpegCmd := None, player := None\<rparr>"
  by (simp add: stop_defs split: option.splits)

lemma Stop_snd: "snd (Stop s) = (snd s)\<lparr>trace := trace (snd s) @ stopEvents (fst s)\<rparr>"
  by (simp add: stop_defs stopEvents_def emit_def split: option.splits)

lemma Close_fst: "fst (Close s) = (fst s)\<lparr>wg := 0, ffmpegCmd := None, player := None, otoContext := None\<rparr>"
  by (simp add: close_defs Stop_fst split: option.splits)

lemma Close_snd:
  "snd (Close s) = (snd s)\<lparr>trace := trace (snd s) @ stopEvents (fst s) @
       (case otoContext (fst s) of Some c \<Rightarrow> [EvContextClose c] | None \<Rightarrow> [])\<rparr>"
  by (simp add: close_defs Stop_fst Stop_snd emit_def split: option.splits)

lemma startBody_pipe:
  "pipe_err env = Some e \<Longrightarrow> startBody fmt env s = (Some (PipeError e), s)"
  by (simp add: startBody_def)

lemma startBody_cmd:
  "pipe_err env = None \<Longrightarrow> cmd_err env = Some e \<Longrightarrow>
   startBody fmt env s =
     (Some (CmdStartError e),
      (fst s)\<lparr>cancelPlayback := Some (next_handle (snd s))\<rparr>,
      (snd s)\<lparr>next_handle := Suc (next_handle (snd s))\<rparr>)"
  by (simp add: startBody_def fresh_def)

lemma startBody_ctx:
  "pipe_err env = None \<Longrightarrow> cmd_err env = None \<Longrightarrow> otoContext (fst s) = None \<Longrightarrow>
   ctx_err env = Some e \<Longrightarrow>
   startBody fmt env s =
     (Some (OtoContextError e),
      (fst s)\<lparr>cancelPlayback := Some (next_handle (snd s))\<rparr>,
      (snd s)\<lparr>next_handle := next_handle (snd s) + 2,
               trace := trace (snd s) @
                 [EvCmdStart (next_handle (snd s) + 1) (ffmpegCommand fmt (ffmpegPath (snd s)) (fst s))]\<rparr>)"
  by (simp add: startBody_def fresh_def ensureContext_def emit_def)

lemma startBody_new:
  "pipe_err env = None \<Longrightarrow> cmd_err env = None \<Longrightarrow> otoContext (fst s) = None \<Longrightarrow>
   ctx_err env = None \<Longrightarrow>
   startBody fmt env s =
     (None,
      (fst s)\<lparr>wg := Suc (wg (fst s)),
               cancelPlayback := Some (next_handle (snd s)),
               ffmpegCmd := Some (next_handle (snd s) + 1),
               player := Some (next_handle (snd s) + 3),
               otoContext := Some (next_handle (snd s) + 2)\<rparr>,
      (snd s)\<lparr>next_handle := next_handle (snd s) + 4,
               trace := trace (snd s) @
                 [EvCmdStart (next_handle (snd s) + 1) (ffmpegCommand fmt (ffmpegPath (snd s)) (fst s)),
                  EvNewContext (next_handle (snd s) + 2),
                  EvNewPlayer (next_handle (snd s) + 3) (next_handle (snd s) + 2),
                  EvGo (next_handle (snd s) + 3) (next_handle (snd s))]\<rparr>)"
  by (simp add: startBody_def fresh_def ensureContext_def launchCopy_def emit_def)

lemma startBody_reuse:
  "pipe_err env = None \<Longrightarrow> cmd_err env = None \<Longrightarrow> otoContext (fst s) = Some c \<Longrightarrow>
   startBody fmt env s =
     (None,
      (fst s)\<lparr>wg := Suc (wg (fst s)),
               cancelPlayback := Some (next_handle (snd s)),
               ffmpegCmd := Some (next_handle (snd s) + 1),
               player := Some (next_handle (snd s) + 2)\<rparr>,
      (snd s)\<lparr>next_handle := next_handle (snd s) + 3,
               trace := trace (snd s) @
                 [EvCmdStart (next_handle (snd s) + 1) (ffmpegCommand fmt (ffmpegPath (snd s)) (fst s)),
                  EvNewPlayer (next_handle (snd s) + 2) c,
                  EvGo (next_handle (snd s) + 2) (next_handle (snd s))]\<rparr>)"
  by (simp add: startBody_def fresh_def ensureContext_def launchCopy_def emit_def)

lemma env_cases:
  obtains (pipe) e where "pipe_err env = Some e"
  | (cmd) e where "pipe_err env = None" "cmd_err env = Some e"
  | (ctx) e where "pipe_err env = None" "cmd_err env = None" "ctx_err env = Some e"
  | (ok) "pipe_err env = None" "cmd_err env = None" "ctx_err env = None"
  by (cases "pipe_err env"; cases "cmd_err env"; cases "ctx_err env") auto

lemma consistent_Stop: "consistent s \<Longrightarrow> consistent (Stop s)"
  by (simp add: consistent_def Stop_fst Stop_snd)

lemma consistent_Close: "consistent s \<Longrightarrow> consistent (Close s)"
  by (simp add: consistent_def Close_fst Close_snd)

lemma consistent_startBody: "consistent s \<Longrightarrow> consistent (snd (startBody fmt env s))"
proof (cases env rule: env_cases)
  case (pipe e)
  then show "consistent s \<Longrightarrow> ?thesis" by (simp add: startBody_pipe)
next
  case (cmd e)
  then show "consistent s \<Longrightarrow> ?thesis" by (auto simp: startBody_cmd consistent_def)
next
  case (ctx e)
  assume c: "consistent s"
  show ?thesis
  proof (cases "otoContext (fst s)")
    case None
    with ctx c show ?thesis by (auto simp: startBody_ctx consistent_def)
  next
    case (Some a)
    with ctx c show ?thesis by (auto simp: startBody_reuse consistent_def)
  qed
next
  case ok
  assume c: "consistent s"
  show ?thesis
  proof (cases "otoContext (fst s)")
    case None
    with ok c show ?thesis by (auto simp: startBody_new consistent_def)
  next
    case (Some a)
    with ok c show ?thesis by (auto simp: startBody_reuse consistent_def)
  qed
qed

lemma consistent_Start: "consistent s \<Longrightarrow> consistent (snd (Start fmt env s))"
  by (simp add: Start_def consistent_startBody consistent_Close)

lemma consistent_step: "consistent s \<Longrightarrow> consistent (step fmt c s)"
  by (cases c) (simp_all add: consistent_Start consistent_Stop consistent_Close,
      simp add: consistent_def SetFFmpegPath_def)

lemma reachable_consistent: "reachable fmt s \<Longrightarrow> consistent s"
proof (induction rule: reachable.induct)
  case reach_new
  show ?case
    by (simp add: consistent_def NewAudioPlayer_def)
next
  case (reach_step s c)
  then show ?case
    by (simp add: consistent_step)
next
  case (reach_other s k evs)
  then show ?case
    by (auto simp: consistent_def)
qed

lemma emitted_Stop: "emitted (snd s) (snd (Stop s)) = stopEvents (fst s)"
  by (simp add: Stop_snd emitted_def)

lemma emitted_Close:
  "emitted (snd s) (snd (Close s)) =
     stopEvents (fst s) @ (case otoContext (fst s) of Some c \<Rightarrow> [EvContextClose c] | None \<Rightarrow> [])"
  by (simp add: Close_snd emitted_def)

lemma reachable_idle:
  "reachable fmt s \<Longrightarrow> ffmpegCmd (fst s) = None \<Longrightarrow> player (fst s) = None \<and> wg (fst s) = 0"
  using reachable_consistent [of fmt s] by (simp add: consistent_def)

section \<open>Stop without a session\<close>

text \<open>
  C8. On a controller with no active session (\<open>ap.ffmpegCmd\<close> is nil, the test of line 51)
  \<open>Stop\<close> leaves every field of the controller as it was: it only calls the stored cancel
  function, if there is one, and returns from the wait. For every controller a second
  \<open>Stop\<close> right after a first leaves the controller as the first left it.
\<close>

theorem Stop_idle_noop:
  "(reachable fmt s \<longrightarrow> ffmpegCmd (fst s) = None \<longrightarrow>
      fst (Stop s) = fst s \<and>
      emitted (snd s) (snd (Stop s)) =
        (case cancelPlayback (fst s) of Some c \<Rightarrow> [EvCancel c] | None \<Rightarrow> []) @ [EvWgWait] \<and>
      next_handle (snd (Stop s)) = next_handle (snd s) \<and>
      ffmpegPath (snd (Stop s)) = ffmpegPath (snd s)) \<and>
   fst (Stop (Stop s)) = fst (Stop s)"
proof -
  have idem: "fst (Stop (Stop s)) = fst (Stop s)"
    by (simp add: Stop_fst)
  have noop: "fst (Stop s) = fst s \<and>
      emitted (snd s) (snd (Stop s)) =
        (case cancelPlayback (fst s) of Some c \<Rightarrow> [EvCancel c] | None \<Rightarrow> []) @ [EvWgWait] \<and>
      next_handle (snd (Stop s)) = next_handle (snd s) \<and>
      ffmpegPath (snd (Stop s)) = ffmpegPath (snd s)"
    if r: "reachable fmt s" and i: "ffmpegCmd (fst s) = None"
  proof -
    from reachable_idle [OF r i] have p: "player (fst s) = None" and w: "wg (fst s) = 0"
      by simp_all
    from i p w have "fst (Stop s) = fst s"
      by (simp add: Stop_fst)
    moreover from i p have "emitted (snd s) (snd (Stop s)) =
        (case cancelPlayback (fst s) of Some c \<Rightarrow> [EvCancel c] | None \<Rightarrow> []) @ [EvWgWait]"
      by (simp add: emitted_Stop stopEvents_def)
    ultimately show ?thesis
      by (simp add: Stop_snd)
  qed
  from idem noop show ?thesis by blast
qed

theorem Stop_idle_noop_witness:
  "reachable fmtStub (step fmtStub CallStop (step fmtStub (CallStart okEnv) (demoPlayer, init_world))) \<and>
   ffmpegCmd (fst (step fmtStub CallStop (step fmtStub (CallStart okEnv) (demoPlayer, init_world)))) = None \<and>
   fst (Stop (step fmtStub CallStop (step fmtStub (CallStart okEnv) (demoPlayer, init_world)))) =
     \<lparr>wg = 0, cancelPlayback = Some 0, ffmpegCmd = None, player = None, otoContext = Some 2,
      audioFile = ''track.mp3'', speed = 0x3FF8000000000000, startTime = 30\<rparr> \<and>
   fst (step fmtStub CallStop (step fmtStub (CallStart okEnv) (demoPlayer, init_world))) =
     \<lparr>wg = 0, cancelPlayback = Some 0, ffmpegCmd = None, player = None, otoContext = Some 2,
      audioFile = ''track.mp3'', speed = 0x3FF8000000000000, startTime = 30\<rparr> \<and>
   emitted (snd (step fmtStub CallStop (step fmtStub (CallStart okEnv) (demoPlayer, init_world))))
     (snd (Stop (step fmtStub CallStop (step fmtStub (CallStart okEnv) (demoPlayer, init_world))))) =
     [EvCancel 0, EvWgWait]"
proof -
  let ?s = "step fmtStub CallStop (step fmtStub (CallStart okEnv) (demoPlayer, init_world))"
  have r: "reachable fmtStub ?s"
    unfolding demoPlayer_def by (intro reach_step reach_new)
  have v: "fst ?s = \<lparr>wg = 0, cancelPlayback = Some 0, ffmpegCmd = None, player = None,
      otoContext = Some 2, audioFile = ''track.mp3'', speed = 0x3FF8000000000000, startTime = 30\<rparr>"
    by (simp add: eval_defs)
  have i: "ffmpegCmd (fst ?s) = None"
    unfolding v by simp
  from Stop_idle_noop [of fmtStub ?s] r i v show ?thesis
    by simp
qed

section \<open>What Stop changes and what it keeps\<close>

lemma teardown_keeps_cancel:
  "c = CallStop \<or> c = CallClose \<Longrightarrow>
   cancelPlayback (fst (step fmt c s)) = cancelPlayback (fst s)"
  by (auto simp: Stop_fst Close_fst)

lemma teardowns_keep_cancel:
  "set cs \<subseteq> {CallStop, CallClose} \<Longrightarrow>
   cancelPlayback (fst (run fmt cs s)) = cancelPlayback (fst s)"
proof (induction cs arbitrary: s)
  case Nil
  show ?case by (simp add: run_def)
next
  case (Cons c cs)
  from Cons.prems have c: "c = CallStop \<or> c = CallClose" and cs: "set cs \<subseteq> {CallStop, CallClose}"
    by auto
  have "run fmt (c # cs) s = run fmt cs (step fmt c s)"
    by (simp add: run_def)
  with Cons.IH [OF cs, of "step fmt c s"] teardown_keeps_cancel [OF c, of fmt s]
  show ?case by simp
qed

lemma stopEvents_cancel_first:
  "cancelPlayback ap = Some c \<Longrightarrow> take 2 (stopEvents ap) = [EvCancel c, EvWgWait]"
  by (simp add: stopEvents_def)

text \<open>
  C10. \<open>Stop\<close> sets the process handle and the player handle to nil and touches no other
  handle or setting: the cancel function, the Oto context, the file, the speed and the start
  offset are as before (the wait-group counter is zero at return, the copy goroutine having
  finished). The cancel function stays stored through any further \<open>Stop\<close> and \<open>Close\<close>
  calls, and each later \<open>Stop\<close> or \<open>Close\<close> begins by calling it and only then waits.
\<close>

theorem Stop_frame:
  "fst (Stop s) = (fst s)\<lparr>wg := 0, ffmpegCmd := None, player := None\<rparr> \<and>
   ffmpegCmd (fst (Stop s)) = None \<and> player (fst (Stop s)) = None \<and>
   cancelPlayback (fst (Stop s)) = cancelPlayback (fst s) \<and>
   otoContext (fst (Stop s)) = otoContext (fst s) \<and>
   audioFile (fst (Stop s)) = audioFile (fst s) \<and>
   speed (fst (Stop s)) = speed (fst s) \<and>
   startTime (fst (Stop s)) = startTime (fst s) \<and>
   (\<forall>c cs. cancelPlayback (fst s) = Some c \<longrightarrow> set cs \<subseteq> {CallStop, CallClose} \<longrightarrow>
      cancelPlayback (fst (run fmt cs (Stop s))) = Some c \<and>
      take 2 (emitted (snd (run fmt cs (Stop s))) (snd (Stop (run fmt cs (Stop s))))) =
        [EvCancel c, EvWgWait] \<and>
      take 2 (emitted (snd (run fmt cs (Stop s))) (snd (Close (run fmt cs (Stop s))))) =
        [EvCancel c, EvWgWait])"
proof -
  have later: "cancelPlayback (fst (run fmt cs (Stop s))) = Some c \<and>
      take 2 (emitted (snd (run fmt cs (Stop s))) (snd (Stop (run fmt cs (Stop s))))) =
        [EvCancel c, EvWgWait] \<and>
      take 2 (emitted (snd (run fmt cs (Stop s))) (snd (Close (run fmt cs (Stop s))))) =
        [EvCancel c, EvWgWait]"
    if c: "cancelPlayback (fst s) = Some c" and cs: "set cs \<subseteq> {CallStop, CallClose}" for c cs
  proof -
    let ?t = "run fmt cs (Stop s)"
    from teardowns_keep_cancel [OF cs, of fmt "Stop s"] c
    have k: "cancelPlayback (fst ?t) = Some c"
      by (simp add: Stop_fst)
    from stopEvents_cancel_first [OF k] have "take 2 (stopEvents (fst ?t)) = [EvCancel c, EvWgWait]" .
    moreover from k have "2 \<le> length (stopEvents (fst ?t))"
      by (simp add: stopEvents_def)
    ultimately show ?thesis using k
      by (simp add: emitted_Stop emitted_Close)
  qed
  have "fst (Stop s) = (fst s)\<lparr>wg := 0, ffmpegCmd := None, player := None\<rparr>"
    by (rule Stop_fst)
  with later show ?thesis
    by simp
qed

theorem Stop_frame_witness:
  "cancelPlayback (fst (snd (Start fmtStub okEnv (demoPlayer, init_world)))) = Some 0 \<and>
   set [CallStop, CallClose, CallStop] \<subseteq> {CallStop, CallClose} \<and>
   fst (snd (Start fmtStub okEnv (demoPlayer, init_world))) =
     \<lparr>wg = 1, cancelPlayback = Some 0, ffmpegCmd = Some 1, player = Some 3, otoContext = Some 2,
      audioFile = ''track.mp3'', speed = 0x3FF8000000000000, startTime = 30\<rparr> \<and>
   fst (Stop (snd (Start fmtStub okEnv (demoPlayer, init_world)))) =
     \<lparr>wg = 0, cancelPlayback = Some 0, ffmpegCmd = None, player = None, otoContext = Some 2,
      audioFile = ''track.mp3'', speed = 0x3FF8000000000000, startTime = 30\<rparr> \<and>
   cancelPlayback (fst (run fmtStub [CallStop, CallClose, CallStop]
      (Stop (snd (Start fmtStub okEnv (demoPlayer, init_world)))))) = Some 0 \<and>
   take 2 (emitted
      (snd (run fmtStub [CallStop, CallClose, CallStop]
         (Stop (snd (Start fmtStub okEnv (demoPlayer, init_world))))))
      (snd (Stop (run fmtStub [CallStop, CallClose, CallStop]
         (Stop (snd (Start fmtStub okEnv (demoPlayer, init_world)))))))) = [EvCancel 0, EvWgWait]"
proof -
  let ?s = "snd (Start fmtStub okEnv (demoPlayer, init_world))"
  have v: "fst ?s = \<lparr>wg = 1, cancelPlayback = Some 0, ffmpegCmd = Some 1, player = Some 3,
      otoContext = Some 2, audioFile = ''track.mp3'', speed = 0x3FF8000000000000, startTime = 30\<rparr>"
    by (simp add: eval_defs)
  have c: "cancelPlayback (fst ?s) = Some 0"
    unfolding v by simp
  have cs: "set [CallStop, CallClose, CallStop] \<subseteq> {CallStop, CallClose}"
    by simp
  from Stop_frame [of ?s fmtStub] c cs have
    "fst (Stop ?s) = (fst ?s)\<lparr>wg := 0, ffmpegCmd := None, player := None\<rparr> \<and>
     cancelPlayback (fst (run fmtStub [CallStop, CallClose, CallStop] (Stop ?s))) = Some 0 \<and>
     take 2 (emitted (snd (run fmtStub [CallStop, CallClose, CallStop] (Stop ?s)))
       (snd (Stop (run fmtStub [CallStop, CallClose, CallStop] (Stop ?s))))) = [EvCancel 0, EvWgWait]"
    by blast
  with v c cs show ?thesis
    by simp
qed

section \<open>The context-aware reader's Read\<close>

text \<open>
  C4. For every buffer: when the reader's cancel function has been called, \<open>Read\<close> returns
  0 and \<open>context.Canceled\<close>, with the buffer and the underlying reader as they were, whatever
  the underlying \<open>Read\<close> would do; otherwise it returns the count, the error and the buffer of
  the underlying \<open>Read\<close>. After \<open>Stop\<close>, a reader made with the session's token is in the
  first case.
\<close>

theorem Read_checks_cancel_first:
  "(EvCancel (ctx rc) \<in> set (trace w) \<longrightarrow>
      Read rd w rc p = ((0, Some Canceled), p, rc)) \<and>
   (EvCancel (ctx rc) \<notin> set (trace w) \<longrightarrow>
      Read rd w rc p = (case rd (r rc) p of (res, p', r') \<Rightarrow> (res, p', rc\<lparr>r := r'\<rparr>))) \<and>
   (cancelPlayback (fst s) = Some tok \<longrightarrow>
      Read rd (snd (Stop s)) (NewReader tok x) p = ((0, Some Canceled), p, NewReader tok x))"
  by (simp add: Read_def ctxErr_def NewReader_def Stop_snd stopEvents_def)

theorem Read_checks_cancel_first_witness:
  "EvCancel (ctx (NewReader 0 (5::nat))) \<in> set (trace (snd (Stop (snd (Start fmtStub okEnv (demoPlayer, init_world)))))) \<and>
   Read countingReader (snd (Stop (snd (Start fmtStub okEnv (demoPlayer, init_world))))) (NewReader 0 5) [0, 0] =
     ((0, Some Canceled), [0, 0], \<lparr>ctx = 0, r = 5\<rparr>) \<and>
   EvCancel (ctx (NewReader 0 (5::nat))) \<notin> set (trace (snd (snd (Start fmtStub okEnv (demoPlayer, init_world))))) \<and>
   Read countingReader (snd (snd (Start fmtStub okEnv (demoPlayer, init_world)))) (NewReader 0 5) [0, 0] =
     ((2, None), [7, 7], \<lparr>ctx = 0, r = 6\<rparr>) \<and>
   cancelPlayback (fst (snd (Start fmtStub okEnv (demoPlayer, init_world)))) = Some 0"
proof -
  let ?s = "snd (Start fmtStub okEnv (demoPlayer, init_world))"
  have a: "EvCancel (ctx (NewReader 0 (5::nat))) \<in> set (trace (snd (Stop ?s)))"
    by (simp add: eval_defs NewReader_def)
  have b: "EvCancel (ctx (NewReader 0 (5::nat))) \<notin> set (trace (snd ?s))"
    by (simp add: eval_defs NewReader_def)
  have c: "cancelPlayback (fst ?s) = Some 0"
    by (simp add: eval_defs)
  have d: "countingReader 5 [0, 0] = ((2, None), [7, 7], 6)"
    by (simp add: countingReader_def numeral_2_eq_2)
  from Read_checks_cancel_first [of "NewReader 0 (5::nat)" "snd (Stop ?s)" countingReader "[0, 0]"]
       Read_checks_cancel_first [of "NewReader 0 (5::nat)" "snd ?s" countingReader "[0, 0]"]
       a b c d
  show ?thesis
    by (simp add: NewReader_def)
qed

section \<open>Failed starts\<close>

lemma startBody_fail:
  assumes i: "ffmpegCmd (fst s) = None" "player (fst s) = None" "wg (fst s) = 0"
    and f: "fst (startBody fmt env s) = Some err"
  shows "ffmpegCmd (fst (snd (startBody fmt env s))) = None \<and>
         player (fst (snd (startBody fmt env s))) = None \<and>
         wg (fst (snd (startBody fmt env s))) = 0 \<and>
         ((\<exists>e. err = PipeError e \<and> pipe_err env = Some e \<and>
               cancelPlayback (fst (snd (startBody fmt env s))) = cancelPlayback (fst s)) \<or>
          (\<exists>e. err = CmdStartError e \<and> pipe_err env = None \<and> cmd_err env = Some e \<and>
               cancelPlayback (fst (snd (startBody fmt env s))) = Some (next_handle (snd s))) \<or>
          (\<exists>e. err = OtoContextError e \<and> pipe_err env = None \<and> cmd_err env = None \<and>
               ctx_err env = Some e \<and>
               cancelPlayback (fst (snd (startBody fmt env s))) = Some (next_handle (snd s))))"
proof (cases env rule: env_cases)
  case (pipe e)
  with i f show ?thesis by (simp add: startBody_pipe)
next
  case (cmd e)
  with i f show ?thesis by (simp add: startBody_cmd)
next
  case (ctx e)
  show ?thesis
  proof (cases "otoContext (fst s)")
    case None
    with ctx i f show ?thesis by (simp add: startBody_ctx)
  next
    case (Some c)
    with ctx f show ?thesis by (simp add: startBody_reuse)
  qed
next
  case ok
  show ?thesis
  proof (cases "otoContext (fst s)")
    case None
    with ok f show ?thesis by (simp add: startBody_new)
  next
    case (Some c)
    with ok f show ?thesis by (simp add: startBody_reuse)
  qed
qed

text \<open>The state the body of \<open>Start\<close> is entered with, after line 55.\<close>

lemma Start_entry:
  assumes r: "reachable fmt s"
  obtains s0 where "Start fmt env s = startBody fmt env s0"
    and "ffmpegCmd (fst s0) = None" and "player (fst s0) = None" and "wg (fst s0) = 0"
    and "cancelPlayback (fst s0) = cancelPlayback (fst s)"
    and "next_handle (snd s0) = next_handle (snd s)"
proof (cases "ffmpegCmd (fst s)")
  case None
  with reachable_idle [OF r None] that [of s] show ?thesis
    by (simp add: Start_def)
next
  case (Some p)
  with that [of "Close s"] show ?thesis
    by (simp add: Start_def Close_fst Close_snd)
qed

text \<open>
  C2, as the code has it. When \<open>Start\<close> on a reachable controller returns an error, the
  controller holds no process handle and no player and its wait-group counter is zero; a
  \<open>Stop\<close> that follows changes no field, calling only the stored cancel function before it
  returns from the wait. The cancel function is not cleared: after a pipe error it is the
  one held before, after a failed process start or a failed context creation it is the new
  token's.
\<close>

theorem failed_Start_leaves_no_session:
  assumes r: "reachable fmt s" and f: "fst (Start fmt env s) = Some err"
  shows "ffmpegCmd (fst (snd (Start fmt env s))) = None \<and>
         player (fst (snd (Start fmt env s))) = None \<and>
         wg (fst (snd (Start fmt env s))) = 0 \<and>
         fst (Stop (snd (Start fmt env s))) = fst (snd (Start fmt env s)) \<and>
         emitted (snd (snd (Start fmt env s))) (snd (Stop (snd (Start fmt env s)))) =
           (case cancelPlayback (fst (snd (Start fmt env s))) of
              Some c \<Rightarrow> [EvCancel c] | None \<Rightarrow> []) @ [EvWgWait] \<and>
         ((\<exists>e. err = PipeError e \<and> pipe_err env = Some e \<and>
               cancelPlayback (fst (snd (Start fmt env s))) = cancelPlayback (fst s)) \<or>
          (\<exists>e. err = CmdStartError e \<and> pipe_err env = None \<and> cmd_err env = Some e \<and>
               cancelPlayback (fst (snd (Start fmt env s))) = Some (next_handle (snd s))) \<or>
          (\<exists>e. err = OtoContextError e \<and> pipe_err env = None \<and> cmd_err env = None \<and>
               ctx_err env = Some e \<and>
               cancelPlayback (fst (snd (Start fmt env s))) = Some (next_handle (snd s))))"
proof -
  from r obtain s0 where e: "Start fmt env s = startBody fmt env s0"
    and i: "ffmpegCmd (fst s0) = None" "player (fst s0) = None" "wg (fst s0) = 0"
    and k: "cancelPlayback (fst s0) = cancelPlayback (fst s)"
           "next_handle (snd s0) = next_handle (snd s)"
    by (rule Start_entry)
  let ?t = "snd (Start fmt env s)"
  from f e have f0: "fst (startBody fmt env s0) = Some err"
    by simp
  from startBody_fail [OF i f0] e k
  have body: "ffmpegCmd (fst ?t) = None \<and> player (fst ?t) = None \<and> wg (fst ?t) = 0 \<and>
         ((\<exists>e. err = PipeError e \<and> pipe_err env = Some e \<and>
               cancelPlayback (fst ?t) = cancelPlayback (fst s)) \<or>
          (\<exists>e. err = CmdStartError e \<and> pipe_err env = None \<and> cmd_err env = Some e \<and>
               cancelPlayback (fst ?t) = Some (next_handle (snd s))) \<or>
          (\<exists>e. err = OtoContextError e \<and> pipe_err env = None \<and> cmd_err env = None \<and>
               ctx_err env = Some e \<and>
               cancelPlayback (fst ?t) = Some (next_handle (snd s))))"
    by simp
  then have idle: "ffmpegCmd (fst ?t) = None" "player (fst ?t) = None" "wg (fst ?t) = 0"
    by simp_all
  from idle have "fst (Stop ?t) = fst ?t"
    by (simp add: Stop_fst)
  moreover from idle have "emitted (snd ?t) (snd (Stop ?t)) =
      (case cancelPlayback (fst ?t) of Some c \<Rightarrow> [EvCancel c] | None \<Rightarrow> []) @ [EvWgWait]"
    by (simp add: emitted_Stop stopEvents_def)
  ultimately show ?thesis using body
    by blast
qed

text \<open>With no FFmpeg to run, a new controller's \<open>Start\<close> fails and keeps cancel function 0.\<close>

theorem failed_Start_keeps_cancel:
  "Start fmtStub noFFmpeg (demoPlayer, init_world) =
     (Some (CmdStartError ''executable file not found''),
      demoPlayer\<lparr>cancelPlayback := Some 0\<rparr>, init_world\<lparr>next_handle := 1\<rparr>) \<and>
   cancelPlayback (fst (snd (Start fmtStub noFFmpeg (demoPlayer, init_world)))) \<noteq> None"
  by (simp add: eval_defs noFFmpeg_def)

theorem failed_Start_leaves_no_session_witness:
  "reachable fmtStub (demoPlayer, init_world) \<and>
   fst (Start fmtStub noFFmpeg (demoPlayer, init_world)) =
     Some (CmdStartError ''executable file not found'') \<and>
   ffmpegCmd (fst (snd (Start fmtStub noFFmpeg (demoPlayer, init_world)))) = None \<and>
   player (fst (snd (Start fmtStub noFFmpeg (demoPlayer, init_world)))) = None \<and>
   fst (Stop (snd (Start fmtStub noFFmpeg (demoPlayer, init_world)))) =
     fst (snd (Start fmtStub noFFmpeg (demoPlayer, init_world))) \<and>
   emitted (snd (snd (Start fmtStub noFFmpeg (demoPlayer, init_world))))
     (snd (Stop (snd (Start fmtStub noFFmpeg (demoPlayer, init_world))))) = [EvCancel 0, EvWgWait]"
proof -
  have r: "reachable fmtStub (demoPlayer, init_world)"
    unfolding demoPlayer_def by (rule reach_new)
  have f: "fst (Start fmtStub noFFmpeg (demoPlayer, init_world)) =
      Some (CmdStartError ''executable file not found'')"
    by (simp add: eval_defs noFFmpeg_def)
  have c: "cancelPlayback (fst (snd (Start fmtStub noFFmpeg (demoPlayer, init_world)))) = Some 0"
    by (simp add: eval_defs noFFmpeg_def)
  from failed_Start_leaves_no_session [OF r f] r f c show ?thesis
    by simp
qed

section \<open>The Oto context across calls\<close>

lemma Stop_keeps_context:
  "otoContext (fst (Stop s)) = otoContext (fst s) \<and>
   EvContextClose c \<notin> set (emitted (snd s) (snd (Stop s))) \<and>
   contextsCreated (snd (Stop s)) = contextsCreated (snd s)"
proof -
  have "EvContextClose c \<notin> set (stopEvents (fst s))"
    by (simp add: stopEvents_def split: option.splits)
  moreover have "contextsCreated (snd (Stop s)) = contextsCreated (snd s)"
    by (simp add: Stop_snd contextsCreated_def stopEvents_def split: option.splits)
  ultimately show ?thesis
    by (simp add: Stop_fst emitted_Stop)
qed

text \<open>\<open>Start\<close> with no session and a context at hand: the context is used as it is.\<close>

lemma startBody_keeps_context:
  assumes c: "otoContext (fst s) = Some c"
  shows "otoContext (fst (snd (startBody fmt env s))) = Some c \<and>
         EvContextClose c' \<notin> set (emitted (snd s) (snd (snd (startBody fmt env s)))) \<and>
         contextsCreated (snd (snd (startBody fmt env s))) = contextsCreated (snd s)"
proof (cases "pipe_err env")
  case (Some e)
  with c show ?thesis by (simp add: startBody_pipe emitted_def)
next
  case None
  show ?thesis
  proof (cases "cmd_err env")
    case (Some e)
    with None c show ?thesis by (simp add: startBody_cmd emitted_def contextsCreated_def)
  next
    case cn: None
    with None c show ?thesis by (simp add: startBody_reuse emitted_def contextsCreated_def)
  qed
qed

text \<open>\<open>Start\<close> during a session: line 53 closes the context before anything else.\<close>

lemma startBody_fresh_context:
  assumes n: "otoContext (fst s) = None" and c: "c < next_handle (snd s)"
  shows "otoContext (fst (snd (startBody fmt env s))) \<noteq> Some c"
proof (cases env rule: env_cases)
  case (pipe e)
  with n show ?thesis by (simp add: startBody_pipe)
next
  case (cmd e)
  with n show ?thesis by (simp add: startBody_cmd)
next
  case (ctx e)
  with n show ?thesis by (simp add: startBody_ctx)
next
  case ok
  with n c show ?thesis by (simp add: startBody_new)
qed

lemma startBody_emits:
  "\<exists>evs. trace (snd (snd (startBody fmt env s))) = trace (snd s) @ evs"
  by (auto simp: startBody_def ensureContext_def launchCopy_def fresh_def emit_def Let_def
      split: option.splits prod.splits sum.splits)

text \<open>
  C1, as the code has it. A context that a reachable controller holds is kept by \<open>Stop\<close>,
  and by a \<open>Start\<close> made while no session is active, which closes nothing and creates
  nothing. A \<open>Start\<close> made while a session is active calls \<open>Close\<close> (line 53): after the
  calls of \<open>Stop\<close> it closes the context, and the controller never holds that context
  again. \<open>Close\<close> closes it.
\<close>

theorem context_lifetime:
  assumes r: "reachable fmt s" and c: "otoContext (fst s) = Some c"
  shows "(otoContext (fst (Stop s)) = Some c \<and>
          EvContextClose c \<notin> set (emitted (snd s) (snd (Stop s)))) \<and>
         (ffmpegCmd (fst s) = None \<longrightarrow>
            otoContext (fst (snd (Start fmt env s))) = Some c \<and>
            EvContextClose c \<notin> set (emitted (snd s) (snd (snd (Start fmt env s)))) \<and>
            contextsCreated (snd (snd (Start fmt env s))) = contextsCreated (snd s)) \<and>
         (ffmpegCmd (fst s) \<noteq> None \<longrightarrow>
            take (Suc (length (stopEvents (fst s)))) (emitted (snd s) (snd (snd (Start fmt env s)))) =
              stopEvents (fst s) @ [EvContextClose c] \<and>
            otoContext (fst (snd (Start fmt env s))) \<noteq> Some c) \<and>
         (otoContext (fst (Close s)) = None \<and>
          emitted (snd s) (snd (Close s)) = stopEvents (fst s) @ [EvContextClose c])"
proof -
  from c have stop: "otoContext (fst (Stop s)) = Some c \<and>
      EvContextClose c \<notin> set (emitted (snd s) (snd (Stop s)))"
    using Stop_keeps_context [of s c] by simp
  have idle: "otoContext (fst (snd (Start fmt env s))) = Some c \<and>
      EvContextClose c \<notin> set (emitted (snd s) (snd (snd (Start fmt env s)))) \<and>
      contextsCreated (snd (snd (Start fmt env s))) = contextsCreated (snd s)"
    if "ffmpegCmd (fst s) = None"
    using that startBody_keeps_context [OF c, of fmt env c] by (simp add: Start_def)
  have active: "take (Suc (length (stopEvents (fst s)))) (emitted (snd s) (snd (snd (Start fmt env s)))) =
        stopEvents (fst s) @ [EvContextClose c] \<and>
      otoContext (fst (snd (Start fmt env s))) \<noteq> Some c"
    if a: "ffmpegCmd (fst s) \<noteq> None"
  proof -
    from a have e: "Start fmt env s = startBody fmt env (Close s)"
      by (simp add: Start_def)
    from reachable_consistent [OF r] c have lt: "c < next_handle (snd s)"
      by (simp add: consistent_def)
    have n: "otoContext (fst (Close s)) = None"
      by (simp add: Close_fst)
    from lt have lt': "c < next_handle (snd (Close s))"
      by (simp add: Close_snd)
    from startBody_fresh_context [OF n lt'] e
    have fresh: "otoContext (fst (snd (Start fmt env s))) \<noteq> Some c"
      by simp
    from startBody_emits [of fmt env "Close s"] obtain evs
      where "trace (snd (snd (startBody fmt env (Close s)))) = trace (snd (Close s)) @ evs" ..
    with e c have "emitted (snd s) (snd (snd (Start fmt env s))) =
        (stopEvents (fst s) @ [EvContextClose c]) @ evs"
      by (simp add: Close_snd emitted_def)
    then have "take (Suc (length (stopEvents (fst s)))) (emitted (snd s) (snd (snd (Start fmt env s)))) =
        stopEvents (fst s) @ [EvContextClose c]"
      by simp
    with fresh show ?thesis by simp
  qed
  from c have close: "otoContext (fst (Close s)) = None \<and>
      emitted (snd s) (snd (Close s)) = stopEvents (fst s) @ [EvContextClose c]"
    by (simp add: Close_fst emitted_Close)
  from stop idle active close show ?thesis
    by blast
qed

text \<open>
  Two starts in a row on a new controller: the second closes context 2, which the first
  created, and goes on with a new context 6.
\<close>

theorem restart_closes_context:
  "otoContext (fst (snd (Start fmtStub okEnv (demoPlayer, init_world)))) = Some 2 \<and>
   ffmpegCmd (fst (snd (Start fmtStub okEnv (demoPlayer, init_world)))) = Some 1 \<and>
   take 6 (emitted (snd (snd (Start fmtStub okEnv (demoPlayer, init_world))))
     (snd (snd (Start fmtStub okEnv (snd (Start fmtStub okEnv (demoPlayer, init_world))))))) =
     [EvCancel 0, EvWgWait, EvKill 1, EvCmdWait 1, EvPlayerClose 3, EvContextClose 2] \<and>
   otoContext (fst (snd (Start fmtStub okEnv (snd (Start fmtStub okEnv (demoPlayer, init_world)))))) =
     Some 6"
  by (simp add: eval_defs ffmpegCommand_def)

theorem context_lifetime_witness:
  "reachable fmtStub (snd (Start fmtStub okEnv (demoPlayer, init_world))) \<and>
   otoContext (fst (snd (Start fmtStub okEnv (demoPlayer, init_world)))) = Some 2 \<and>
   ffmpegCmd (fst (snd (Start fmtStub okEnv (demoPlayer, init_world)))) \<noteq> None \<and>
   otoContext (fst (Stop (snd (Start fmtStub okEnv (demoPlayer, init_world))))) = Some 2 \<and>
   otoContext (fst (snd (Start fmtStub okEnv (snd (Start fmtStub okEnv (demoPlayer, init_world))))))
     \<noteq> Some 2 \<and>
   otoContext (fst (Close (snd (Start fmtStub okEnv (demoPlayer, init_world))))) = None \<and>
   reachable fmtStub (Stop (snd (Start fmtStub okEnv (demoPlayer, init_world)))) \<and>
   ffmpegCmd (fst (Stop (snd (Start fmtStub okEnv (demoPlayer, init_world))))) = None \<and>
   otoContext (fst (snd (Start fmtStub okEnv (Stop (snd (Start fmtStub okEnv (demoPlayer, init_world)))))))
     = Some 2"
proof -
  let ?s = "snd (Start fmtStub okEnv (demoPlayer, init_world))"
  have "reachable fmtStub (step fmtStub (CallStart okEnv) (demoPlayer, init_world))"
    unfolding demoPlayer_def by (intro reach_step reach_new)
  then have r: "reachable fmtStub ?s"
    by simp
  have c: "otoContext (fst ?s) = Some 2"
    by (simp add: eval_defs)
  have a: "ffmpegCmd (fst ?s) \<noteq> None"
    by (simp add: eval_defs)
  have "reachable fmtStub (step fmtStub CallStop ?s)"
    using r by (rule reach_step)
  then have r': "reachable fmtStub (Stop ?s)"
    by simp
  have c': "otoContext (fst (Stop ?s)) = Some 2"
    using c by (simp add: Stop_fst)
  have a': "ffmpegCmd (fst (Stop ?s)) = None"
    by (simp add: Stop_fst)
  from context_lifetime [OF r c, of okEnv] context_lifetime [OF r' c', of okEnv] r c a r' a'
  show ?thesis
    by simp
qed

section \<open>Start after Close\<close>

text \<open>
  C9, as the code has it. \<open>Close\<close> leaves a controller that can be started again: the
  \<open>Start\<close> that follows a \<open>Close\<close> returns nil exactly when the pipe, the process start and
  the context creation all succeed, and it then holds a new session on a newly created
  context.
\<close>

theorem Start_after_Close:
  "(fst (Start fmt env (Close s)) = None) = allSucceed env \<and>
   (allSucceed env \<longrightarrow>
      fst (snd (Start fmt env (Close s))) =
        (fst s)\<lparr>wg := 1,
                 cancelPlayback := Some (next_handle (snd s)),
                 ffmpegCmd := Some (next_handle (snd s) + 1),
                 player := Some (next_handle (snd s) + 3),
                 otoContext := Some (next_handle (snd s) + 2)\<rparr> \<and>
      contextsCreated (snd (snd (Start fmt env (Close s)))) = Suc (contextsCreated (snd (Close s))))"
proof -
  let ?c = "Close s"
  have e: "Start fmt env ?c = startBody fmt env ?c"
    by (simp add: Start_def Close_fst)
  have n: "otoContext (fst ?c) = None"
    by (simp add: Close_fst)
  have iff: "(fst (Start fmt env ?c) = None) = allSucceed env"
  proof (cases env rule: env_cases)
    case (pipe x)
    then show ?thesis by (simp add: e startBody_pipe allSucceed_def)
  next
    case (cmd x)
    then show ?thesis by (simp add: e startBody_cmd allSucceed_def)
  next
    case (ctx x)
    with n show ?thesis by (simp add: e startBody_ctx allSucceed_def)
  next
    case ok
    with n show ?thesis by (simp add: e startBody_new allSucceed_def)
  qed
  have run: "fst (snd (Start fmt env ?c)) =
        (fst s)\<lparr>wg := 1,
                 cancelPlayback := Some (next_handle (snd s)),
                 ffmpegCmd := Some (next_handle (snd s) + 1),
                 player := Some (next_handle (snd s) + 3),
                 otoContext := Some (next_handle (snd s) + 2)\<rparr> \<and>
      contextsCreated (snd (snd (Start fmt env ?c))) = Suc (contextsCreated (snd ?c))"
    if "allSucceed env"
  proof -
    from that have ok: "pipe_err env = None" "cmd_err env = None" "ctx_err env = None"
      by (simp_all add: allSucceed_def)
    have "fst (snd (startBody fmt env ?c)) =
        (fst s)\<lparr>wg := 1,
                 cancelPlayback := Some (next_handle (snd s)),
                 ffmpegCmd := Some (next_handle (snd s) + 1),
                 player := Some (next_handle (snd s) + 3),
                 otoContext := Some (next_handle (snd s) + 2)\<rparr>"
      by (simp add: startBody_new [OF ok(1,2) n ok(3)] Close_fst Close_snd)
    moreover have "contextsCreated (snd (snd (startBody fmt env ?c))) = Suc (contextsCreated (snd ?c))"
      by (simp add: startBody_new [OF ok(1,2) n ok(3)] contextsCreated_def)
    ultimately show ?thesis
      by (simp add: e)
  qed
  from iff run show ?thesis
    by blast
qed

text \<open>A session, \<open>Close\<close>, and a \<open>Start\<close> again: it returns nil and a session is running.\<close>

theorem Start_after_Close_succeeds:
  "fst (Start fmtStub okEnv (Close (snd (Start fmtStub okEnv (demoPlayer, init_world))))) = None \<and>
   fst (snd (Start fmtStub okEnv (Close (snd (Start fmtStub okEnv (demoPlayer, init_world)))))) =
     \<lparr>wg = 1, cancelPlayback = Some 4, ffmpegCmd = Some 5, player = Some 7, otoContext = Some 6,
      audioFile = ''track.mp3'', speed = 0x3FF8000000000000, startTime = 30\<rparr>"
  by (simp add: eval_defs)

theorem Start_after_Close_witness:
  "allSucceed okEnv \<and>
   fst (Start fmtStub okEnv (Close (demoPlayer, init_world))) = None \<and>
   fst (snd (Start fmtStub okEnv (Close (demoPlayer, init_world)))) =
     \<lparr>wg = 1, cancelPlayback = Some 0, ffmpegCmd = Some 1, player = Some 3, otoContext = Some 2,
      audioFile = ''track.mp3'', speed = 0x3FF8000000000000, startTime = 30\<rparr> \<and>
   contextsCreated (snd (snd (Start fmtStub okEnv (Close (demoPlayer, init_world))))) = 1"
proof -
  have a: "allSucceed okEnv"
    by (simp add: allSucceed_def okEnv_def)
  have c: "contextsCreated (snd (Close (demoPlayer, init_world))) = 0"
    by (simp add: Close_snd contextsCreated_def stopEvents_def demoPlayer_def NewAudioPlayer_def init_world_def)
  from Start_after_Close [of fmtStub okEnv "(demoPlayer, init_world)"] a c show ?thesis
    by (simp add: demoPlayer_def NewAudioPlayer_def init_world_def)
qed

section \<open>The process a failed Start leaves behind\<close>

text \<open>
  A process handle that the controller does not hold, and that the allocator has given
  out, is never killed or waited for by any later call: the handle is stored nowhere.
\<close>

lemma step_unowned:
  assumes u: "unowned p s"
  shows "unowned p (step fmt c s)"
proof (cases c)
  case (CallStart env)
  have sb: "unowned p (snd (startBody fmt env t))" if t: "unowned p t" for t
  proof (cases env rule: env_cases)
    case (pipe e)
    with t show ?thesis by (simp add: startBody_pipe)
  next
    case (cmd e)
    with t show ?thesis by (simp add: startBody_cmd unowned_def)
  next
    case (ctx e)
    show ?thesis
    proof (cases "otoContext (fst t)")
      case None
      with ctx t show ?thesis by (simp add: startBody_ctx unowned_def)
    next
      case (Some a)
      with ctx t show ?thesis by (simp add: startBody_reuse unowned_def)
    qed
  next
    case ok
    show ?thesis
    proof (cases "otoContext (fst t)")
      case None
      with ok t show ?thesis by (simp add: startBody_new unowned_def)
    next
      case (Some a)
      with ok t show ?thesis by (simp add: startBody_reuse unowned_def)
    qed
  qed
  from u have "unowned p (Close s)"
    by (auto simp: unowned_def Close_fst Close_snd stopEvents_def split: option.splits)
  with u sb CallStart show ?thesis
    by (simp add: Start_def)
next
  case CallStop
  with u show ?thesis
    by (auto simp: unowned_def Stop_fst Stop_snd stopEvents_def split: option.splits)
next
  case CallClose
  with u show ?thesis
    by (auto simp: unowned_def Close_fst Close_snd stopEvents_def split: option.splits)
next
  case (CallSetPath x)
  with u show ?thesis
    by (simp add: unowned_def SetFFmpegPath_def)
qed

lemma run_unowned: "unowned p s \<Longrightarrow> unowned p (run fmt cs s)"
proof (induction cs arbitrary: s)
  case Nil
  then show ?case by (simp add: run_def)
next
  case (Cons c cs)
  have "run fmt (c # cs) s = run fmt cs (step fmt c s)"
    by (simp add: run_def)
  with Cons.IH [OF step_unowned [OF Cons.prems]] show ?case
    by simp
qed

text \<open>
  C3 at a \<open>Start\<close> whose context creation fails: process 1 has been launched (line 78),
  the return of line 88 leaves \<open>ap.ffmpegCmd\<close> nil, and no sequence of later calls kills
  process 1 or waits for it.
\<close>

theorem failed_context_leaks_process:
  "fst (Start fmtStub noDevice (demoPlayer, init_world)) = Some (OtoContextError ''device busy'') \<and>
   trace (snd (snd (Start fmtStub noDevice (demoPlayer, init_world)))) =
     [EvCmdStart 1 (ffmpegCommand fmtStub ''ffmpeg'' demoPlayer)] \<and>
   ffmpegCmd (fst (snd (Start fmtStub noDevice (demoPlayer, init_world)))) = None \<and>
   (\<forall>cs. EvKill 1 \<notin> set (trace (snd (run fmtStub cs (snd (Start fmtStub noDevice (demoPlayer, init_world)))))) \<and>
         EvCmdWait 1 \<notin> set (trace (snd (run fmtStub cs (snd (Start fmtStub noDevice (demoPlayer, init_world)))))))"
proof -
  let ?s = "snd (Start fmtStub noDevice (demoPlayer, init_world))"
  have v: "Start fmtStub noDevice (demoPlayer, init_world) =
      (Some (OtoContextError ''device busy''),
       demoPlayer\<lparr>cancelPlayback := Some 0\<rparr>,
       init_world\<lparr>next_handle := 2, trace := [EvCmdStart 1 (ffmpegCommand fmtStub ''ffmpeg'' demoPlayer)]\<rparr>)"
    by (simp add: start_defs emit_def noDevice_def demoPlayer_def NewAudioPlayer_def init_world_def)
  have u: "unowned 1 ?s"
    unfolding v by (simp add: unowned_def demoPlayer_def NewAudioPlayer_def init_world_def)
  have "EvKill 1 \<notin> set (trace (snd (run fmtStub cs ?s))) \<and>
        EvCmdWait 1 \<notin> set (trace (snd (run fmtStub cs ?s)))" for cs
    using run_unowned [OF u, of fmtStub cs] by (simp add: unowned_def)
  moreover have "ffmpegCmd (fst ?s) = None"
    unfolding v by (simp add: demoPlayer_def NewAudioPlayer_def)
  moreover have "trace (snd ?s) = [EvCmdStart 1 (ffmpegCommand fmtStub ''ffmpeg'' demoPlayer)]"
    unfolding v by simp
  moreover have "fst (Start fmtStub noDevice (demoPlayer, init_world)) =
      Some (OtoContextError ''device busy'')"
    unfolding v by simp
  ultimately show ?thesis
    by blast
qed

section \<open>The decimal numeral of the start offset\<close>







section \<open>The command line of the decoder\<close>

lemma startBody_launch:
  assumes ok: "pipe_err env = None" "cmd_err env = None"
  shows "filter isLaunch (emitted (snd s) (snd (snd (startBody fmt env s)))) =
           [EvCmdStart (Suc (next_handle (snd s))) (ffmpegCommand fmt (ffmpegPath (snd s)) (fst s))]"
proof (cases "otoContext (fst s)")
  case (Some c)
  with ok show ?thesis
    by (simp add: startBody_reuse emitted_def isLaunch_def)
next
  case None
  show ?thesis
  proof (cases "ctx_err env")
    case (Some e)
    with None ok show ?thesis
      by (simp add: startBody_ctx emitted_def isLaunch_def)
  next
    case n: None
    with None ok show ?thesis
      by (simp add: startBody_new emitted_def isLaunch_def)
  qed
qed

lemma Start_launch:
  assumes ok: "pipe_err env = None" "cmd_err env = None"
  shows "\<exists>p. filter isLaunch (emitted (snd s) (snd (snd (Start fmt env s)))) =
           [EvCmdStart p (ffmpegCommand fmt (ffmpegPath (snd s)) (fst s))]"
proof (cases "ffmpegCmd (fst s)")
  case None
  with startBody_launch [OF ok, of s fmt] show ?thesis
    by (simp add: Start_def)
next
  case (Some q)
  let ?c = "Close s"
  let ?pre = "stopEvents (fst s) @
      (case otoContext (fst s) of Some c \<Rightarrow> [EvContextClose c] | None \<Rightarrow> [])"
  have pre: "trace (snd ?c) = trace (snd s) @ ?pre"
    by (simp add: Close_snd)
  from startBody_emits [of fmt env ?c] obtain evs
    where evs: "trace (snd (snd (startBody fmt env ?c))) = trace (snd ?c) @ evs" ..
  have quiet: "filter isLaunch ?pre = []"
    by (simp add: stopEvents_def isLaunch_def split: option.splits)
  from evs have "emitted (snd ?c) (snd (snd (startBody fmt env ?c))) = evs"
    by (simp add: emitted_def)
  with startBody_launch [OF ok, of ?c fmt]
  have l: "filter isLaunch evs =
      [EvCmdStart (Suc (next_handle (snd ?c))) (ffmpegCommand fmt (ffmpegPath (snd ?c)) (fst ?c))]"
    by simp
  have same: "ffmpegCommand fmt (ffmpegPath (snd ?c)) (fst ?c) =
      ffmpegCommand fmt (ffmpegPath (snd s)) (fst s)"
    by (simp add: Close_fst Close_snd ffmpegCommand_def)
  from evs pre have "emitted (snd s) (snd (snd (startBody fmt env ?c))) = ?pre @ evs"
    by (simp add: emitted_def)
  then have "filter isLaunch (emitted (snd s) (snd (snd (startBody fmt env ?c)))) = filter isLaunch evs"
    using quiet by simp
  with l same Some show ?thesis
    by (simp add: Start_def)
qed

text \<open>No call changes the configuration a controller was constructed with.\<close>

lemma startBody_config:
  "audioFile (fst (snd (startBody fmt env s))) = audioFile (fst s) \<and>
   speed (fst (snd (startBody fmt env s))) = speed (fst s) \<and>
   startTime (fst (snd (startBody fmt env s))) = startTime (fst s)"
proof (cases env rule: env_cases)
  case (pipe e)
  then show ?thesis by (simp add: startBody_pipe)
next
  case (cmd e)
  then show ?thesis by (simp add: startBody_cmd)
next
  case (ctx e)
  then show ?thesis
    by (cases "otoContext (fst s)") (simp_all add: startBody_ctx startBody_reuse)
next
  case ok
  then show ?thesis
    by (cases "otoContext (fst s)") (simp_all add: startBody_new startBody_reuse)
qed

lemma step_config:
  "audioFile (fst (step fmt c s)) = audioFile (fst s) \<and>
   speed (fst (step fmt c s)) = speed (fst s) \<and>
   startTime (fst (step fmt c s)) = startTime (fst s)"
proof (cases c)
  case (CallStart env)
  then show ?thesis
    using startBody_config [of fmt env s] startBody_config [of fmt env "Close s"]
    by (simp add: Start_def Close_fst)
qed (simp_all add: Stop_fst Close_fst)

lemma run_config:
  "audioFile (fst (run fmt cs s)) = audioFile (fst s) \<and>
   speed (fst (run fmt cs s)) = speed (fst s) \<and>
   startTime (fst (run fmt cs s)) = startTime (fst s)"
proof (induction cs arbitrary: s)
  case Nil
  show ?case by (simp add: run_def)
next
  case (Cons c cs)
  have "run fmt (c # cs) s = run fmt cs (step fmt c s)"
    by (simp add: run_def)
  with Cons.IH [of "step fmt c s"] step_config [of fmt c s] show ?case
    by simp
qed



section \<open>A speed outside the documented range\<close>

text \<open>
  C7. \<open>NewAudioPlayer\<close> returns a controller for every speed, so a speed outside
  [0.5, 2.0] is never rejected; the controller stores it unchanged, no later call changes
  it, and each \<open>Start\<close> that launches the decoder passes \<open>atempo=\<close> with that very value
  formatted. (Nothing in the proof needs the speed to be out of range: the same holds
  inside it.)
\<close>

theorem speed_passed_verbatim:
  assumes out: "\<not> speedInRange spd" and ok: "pipe_err env = None" "cmd_err env = None"
  shows "speed (NewAudioPlayer file spd start) = spd \<and>
         speed (fst (run fmt cs (NewAudioPlayer file spd start, w))) = spd \<and>
         (\<exists>p cmd. filter isLaunch
              (emitted (snd (run fmt cs (NewAudioPlayer file spd start, w)))
                 (snd (snd (Start fmt env (run fmt cs (NewAudioPlayer file spd start, w)))))) =
              [EvCmdStart p cmd] \<and>
            Args cmd ! 6 = ''atempo='' @ fmt spd CHR ''f'' (- 1) 64)"
proof -
  let ?s = "run fmt cs (NewAudioPlayer file spd start, w)"
  have new: "speed (NewAudioPlayer file spd start) = spd"
    by (simp add: NewAudioPlayer_def)
  with run_config [of fmt cs "(NewAudioPlayer file spd start, w)"] have kept: "speed (fst ?s) = spd"
    by simp
  from Start_launch [OF ok, of ?s fmt] obtain p
    where "filter isLaunch (emitted (snd ?s) (snd (snd (Start fmt env ?s)))) =
        [EvCmdStart p (ffmpegCommand fmt (ffmpegPath (snd ?s)) (fst ?s))]" ..
  moreover have "Args (ffmpegCommand fmt (ffmpegPath (snd ?s)) (fst ?s)) ! 6 =
      ''atempo='' @ fmt spd CHR ''f'' (- 1) 64"
    by (simp add: ffmpegCommand_def kept)
  ultimately show ?thesis using new kept
    by blast
qed

theorem speed_passed_verbatim_witness:
  "\<not> speedInRange 0x4008000000000000 \<and> pipe_err okEnv = None \<and> cmd_err okEnv = None \<and>
   speed (NewAudioPlayer ''track.mp3'' 0x4008000000000000 0) = 0x4008000000000000 \<and>
   (\<exists>p cmd. filter isLaunch
        (emitted (snd (run fmtStub [CallStart okEnv, CallStop]
                         (NewAudioPlayer ''track.mp3'' 0x4008000000000000 0, init_world)))
           (snd (snd (Start fmtStub okEnv
              (run fmtStub [CallStart okEnv, CallStop]
                 (NewAudioPlayer ''track.mp3'' 0x4008000000000000 0, init_world)))))) =
        [EvCmdStart p cmd] \<and>
      Args cmd ! 6 = ''atempo=3'')"
proof -
  have out: "\<not> speedInRange 0x4008000000000000"
    by (simp add: speedInRange_def)
  have ok: "pipe_err okEnv = None" "cmd_err okEnv = None"
    by (simp_all add: okEnv_def)
  have f: "fmtStub 0x4008000000000000 CHR ''f'' (- 1) 64 = ''3''"
    by (simp add: fmtStub_def)
  from speed_passed_verbatim [OF out ok, of "''track.mp3''" 0 fmtStub "[CallStart okEnv, CallStop]" init_world]
    out ok
  show ?thesis
    by (simp add: f)
qed

section \<open>One context for all cycles\<close>

lemma settled_Start:
  assumes t: "settled c k t"
  shows "otoContext (fst (snd (Start fmt env t))) = Some c \<and>
         contextsCreated (snd (snd (Start fmt env t))) = k"
proof -
  from t have i: "ffmpegCmd (fst t) = None" and c: "otoContext (fst t) = Some c"
    and k: "contextsCreated (snd t) = k"
    by (simp_all add: settled_def)
  from startBody_keeps_context [OF c, of fmt env c] i k show ?thesis
    by (simp add: Start_def)
qed

lemma settled_cycle:
  assumes t: "settled c k t"
  shows "settled c k (Stop (snd (Start fmt env t)))"
  using settled_Start [OF t, of fmt env] Stop_keeps_context [of "snd (Start fmt env t)" c]
  by (simp add: settled_def Stop_fst)

lemma settled_cycles: "settled c k t \<Longrightarrow> settled c k (run fmt (cycles envs) t)"
proof (induction envs arbitrary: t)
  case Nil
  then show ?case by (simp add: cycles_def run_def)
next
  case (Cons e envs)
  have "run fmt (cycles (e # envs)) t = run fmt (cycles envs) (Stop (snd (Start fmt e t)))"
    by (simp add: cycles_def run_def)
  with Cons.IH [OF settled_cycle [OF Cons.prems]] show ?case
    by simp
qed

text \<open>
  C6. On a controller with no session and no context yet (a new one, for instance), let the
  first \<open>Start\<close> succeed and let any number of further \<open>Start\<close>/\<open>Stop\<close> cycles follow,
  whatever their \<open>Start\<close>s return. The first \<open>Start\<close> creates the context; after all the
  cycles, and after one more \<open>Start\<close>, the number of contexts created is still one more
  than before and the controller holds that same context.
\<close>

theorem context_created_once:
  assumes i: "ffmpegCmd (fst s) = None" and n: "otoContext (fst s) = None" and ok: "allSucceed e"
  shows "contextsCreated (snd (snd (Start fmt e s))) = Suc (contextsCreated (snd s)) \<and>
         otoContext (fst (snd (Start fmt e s))) = Some (next_handle (snd s) + 2) \<and>
         contextsCreated (snd (run fmt (cycles (e # es)) s)) = Suc (contextsCreated (snd s)) \<and>
         otoContext (fst (run fmt (cycles (e # es)) s)) = Some (next_handle (snd s) + 2) \<and>
         contextsCreated (snd (snd (Start fmt e' (run fmt (cycles (e # es)) s)))) =
           Suc (contextsCreated (snd s)) \<and>
         otoContext (fst (snd (Start fmt e' (run fmt (cycles (e # es)) s)))) =
           Some (next_handle (snd s) + 2)"
proof -
  let ?c = "next_handle (snd s) + 2"
  let ?k = "Suc (contextsCreated (snd s))"
  let ?s1 = "snd (Start fmt e s)"
  from ok have env: "pipe_err e = None" "cmd_err e = None" "ctx_err e = None"
    by (simp_all add: allSucceed_def)
  from i have b: "Start fmt e s = startBody fmt e s"
    by (simp add: Start_def)
  have c1: "otoContext (fst ?s1) = Some ?c"
    by (simp add: b startBody_new [OF env(1,2) n env(3)])
  have k1: "contextsCreated (snd ?s1) = ?k"
    by (simp add: b startBody_new [OF env(1,2) n env(3)] contextsCreated_def)
  from c1 k1 Stop_keeps_context [of ?s1 ?c] have "settled ?c ?k (Stop ?s1)"
    by (simp add: settled_def Stop_fst)
  then have fin: "settled ?c ?k (run fmt (cycles es) (Stop ?s1))"
    by (rule settled_cycles)
  have "run fmt (cycles (e # es)) s = run fmt (cycles es) (Stop ?s1)"
    by (simp add: cycles_def run_def)
  with fin have all: "settled ?c ?k (run fmt (cycles (e # es)) s)"
    by simp
  from settled_Start [OF all, of fmt e'] all c1 k1 show ?thesis
    by (simp add: settled_def)
qed

theorem context_created_once_witness:
  "ffmpegCmd (fst (demoPlayer, init_world)) = None \<and>
   otoContext (fst (demoPlayer, init_world)) = None \<and>
   allSucceed okEnv \<and>
   contextsCreated (snd (snd (Start fmtStub okEnv (demoPlayer, init_world)))) = 1 \<and>
   contextsCreated (snd (run fmtStub (cycles [okEnv, okEnv, noFFmpeg, okEnv]) (demoPlayer, init_world))) = 1 \<and>
   otoContext (fst (run fmtStub (cycles [okEnv, okEnv, noFFmpeg, okEnv]) (demoPlayer, init_world))) = Some 2 \<and>
   contextsCreated (snd (snd (Start fmtStub okEnv
      (run fmtStub (cycles [okEnv, okEnv, noFFmpeg, okEnv]) (demoPlayer, init_world))))) = 1"
proof -
  have i: "ffmpegCmd (fst (demoPlayer, init_world)) = None"
    and n: "otoContext (fst (demoPlayer, init_world)) = None"
    by (simp_all add: demoPlayer_def NewAudioPlayer_def)
  have ok: "allSucceed okEnv"
    by (simp add: allSucceed_def okEnv_def)
  have z: "contextsCreated init_world = 0" "next_handle init_world = 0"
    by (simp_all add: contextsCreated_def init_world_def)
  from context_created_once [OF i n ok, of fmtStub "[okEnv, noFFmpeg, okEnv]" okEnv] i n ok z
  show ?thesis
    by simp
qed

section \<open>The process of a session that did start\<close>

text \<open>
  A session that \<open>Start\<close> has set up holds the process it launched, and the \<open>Stop\<close> that
  ends the session kills that process once and waits for it once.
\<close>

lemma startBody_holds_launched:
  assumes ok: "fst (startBody fmt env t) = None"
  shows "ffmpegCmd (fst (snd (startBody fmt env t))) = Some (Suc (next_handle (snd t))) \<and>
         pipe_err env = None \<and> cmd_err env = None"
proof (cases env rule: env_cases)
  case (pipe e)
  with ok show ?thesis by (simp add: startBody_pipe)
next
  case (cmd e)
  with ok show ?thesis by (simp add: startBody_cmd)
next
  case (ctx e)
  show ?thesis
  proof (cases "otoContext (fst t)")
    case None
    with ctx ok show ?thesis by (simp add: startBody_ctx)
  next
    case (Some c)
    with ctx show ?thesis by (simp add: startBody_reuse)
  qed
next
  case ok
  then show ?thesis
    by (cases "otoContext (fst t)") (simp_all add: startBody_new startBody_reuse)
qed

lemma Start_holds_launched:
  assumes ok: "fst (Start fmt env s) = None"
  shows "\<exists>p cmd. ffmpegCmd (fst (snd (Start fmt env s))) = Some p \<and>
           filter isLaunch (emitted (snd s) (snd (snd (Start fmt env s)))) = [EvCmdStart p cmd]"
proof (cases "ffmpegCmd (fst s)")
  case None
  then have e: "Start fmt env s = startBody fmt env s"
    by (simp add: Start_def)
  from startBody_holds_launched [of fmt env s] ok e
  have h: "ffmpegCmd (fst (snd (startBody fmt env s))) = Some (Suc (next_handle (snd s)))"
    and env: "pipe_err env = None" "cmd_err env = None"
    by simp_all
  from startBody_launch [OF env, of s fmt] h e show ?thesis
    by simp
next
  case (Some q)
  let ?c = "Close s"
  from Some have e: "Start fmt env s = startBody fmt env ?c"
    by (simp add: Start_def)
  from startBody_holds_launched [of fmt env ?c] ok e
  have h: "ffmpegCmd (fst (snd (startBody fmt env ?c))) = Some (Suc (next_handle (snd ?c)))"
    and env: "pipe_err env = None" "cmd_err env = None"
    by simp_all
  let ?pre = "stopEvents (fst s) @
      (case otoContext (fst s) of Some c \<Rightarrow> [EvContextClose c] | None \<Rightarrow> [])"
  have pre: "trace (snd ?c) = trace (snd s) @ ?pre"
    by (simp add: Close_snd)
  from startBody_emits [of fmt env ?c] obtain evs
    where evs: "trace (snd (snd (startBody fmt env ?c))) = trace (snd ?c) @ evs" ..
  have quiet: "filter isLaunch ?pre = []"
    by (simp add: stopEvents_def isLaunch_def split: option.splits)
  from evs have "emitted (snd ?c) (snd (snd (startBody fmt env ?c))) = evs"
    by (simp add: emitted_def)
  with startBody_launch [OF env, of ?c fmt]
  have l: "filter isLaunch evs =
      [EvCmdStart (Suc (next_handle (snd ?c))) (ffmpegCommand fmt (ffmpegPath (snd ?c)) (fst ?c))]"
    by simp
  from evs pre have "emitted (snd s) (snd (snd (startBody fmt env ?c))) = ?pre @ evs"
    by (simp add: emitted_def)
  then have "filter isLaunch (emitted (snd s) (snd (snd (startBody fmt env ?c)))) = filter isLaunch evs"
    using quiet by simp
  with l h e show ?thesis
    by simp
qed

lemma Stop_reaps_session_once:
  assumes p: "ffmpegCmd (fst s) = Some p"
  shows "count_list (emitted (snd s) (snd (Stop s))) (EvKill p) = 1 \<and>
         count_list (emitted (snd s) (snd (Stop s))) (EvCmdWait p) = 1 \<and>
         ffmpegCmd (fst (Stop s)) = None"
  using p by (simp add: emitted_Stop stopEvents_def Stop_fst split: option.splits)

end
